theory Spec2Isabelle
  imports Complex_Main
begin

section \<open>A shallow embedding of the 2D game engine of script.js\<close>

text \<open>
  The engine is a set of JavaScript classes that mutate each other through references.
  The embedding keeps the classes as records, the references as addresses into a store,
  and every method as a function from the state before the call to the state after it.

  Conventions of the embedding:
  \<^item> a JavaScript number is a \<open>real\<close>: arithmetic is exact, and the values \<open>NaN\<close> and
    \<open>Infinity\<close> do not exist;
  \<^item> a function value (an event callback) is the address of the closure, a \<open>nat\<close>;
    \<open>indexOf\<close> compares callbacks by that identity, as \<open>===\<close> does;
  \<^item> there is one engine (\<open>window.gameEngine\<close>), so the back-reference \<open>engine\<close> of an
    entity or a scene is a \<open>bool\<close>: \<open>False\<close> is \<open>null\<close>, \<open>True\<close> is that engine;
  \<^item> the bodies of event callbacks and of the drawing calls are the host's; what the
    engine does to them is to call them, and the calls are recorded, in order, in the field
    \<open>calls\<close> of the state;
  \<^item> a \<open>TypeError\<close> raised by reading a property of \<open>null\<close> is the result \<open>Throws\<close>,
    which carries the state at the moment of the throw (the mutations made before it stay).
\<close>

subsection \<open>Arrays\<close>

text \<open>\<open>Array.prototype.indexOf\<close>: the first index holding the value, or \<open>-1\<close>.\<close>

fun indexOf :: "'a list \<Rightarrow> 'a \<Rightarrow> int" where
  "indexOf [] v = - 1"
| "indexOf (a # as) v =
     (if a = v then 0
      else (let i = indexOf as v in if i > - 1 then i + 1 else - 1))"

text \<open>\<open>Array.prototype.splice(start, n)\<close> for \<open>start \<ge> 0\<close>, the only way the engine calls it.\<close>

definition array_splice :: "'a list \<Rightarrow> int \<Rightarrow> nat \<Rightarrow> 'a list" where
  "array_splice xs start n = take (nat start) xs @ drop (nat start + n) xs"

subsection \<open>EventSystem\<close>

record eventSystem =
  events :: "string \<rightharpoonup> nat list"

definition EventSystem_new :: eventSystem where
  "EventSystem_new = \<lparr> events = Map.empty \<rparr>"

definition EventSystem_on :: "eventSystem \<Rightarrow> string \<Rightarrow> nat \<Rightarrow> eventSystem" where
  "EventSystem_on es event callback =
     (let es1 = (if events es event = None
                 then es\<lparr> events := (events es)(event \<mapsto> []) \<rparr>
                 else es)
      in case events es1 event of
           None \<Rightarrow> es1
         | Some cbs \<Rightarrow> es1\<lparr> events := (events es1)(event \<mapsto> cbs @ [callback]) \<rparr>)"

text \<open>
  \<open>emit\<close> returns the calls \<open>callback(data)\<close> that its \<open>forEach\<close> makes, in the order it
  makes them. The callbacks modelled do not subscribe or unsubscribe while the event fires.
\<close>

definition EventSystem_emit :: "eventSystem \<Rightarrow> string \<Rightarrow> 'd \<Rightarrow> (nat \<times> 'd) list" where
  "EventSystem_emit es event data =
     (case events es event of
        None \<Rightarrow> []
      | Some cbs \<Rightarrow> map (\<lambda>callback. (callback, data)) cbs)"

definition EventSystem_off :: "eventSystem \<Rightarrow> string \<Rightarrow> nat \<Rightarrow> eventSystem" where
  "EventSystem_off es event callback =
     (case events es event of
        None \<Rightarrow> es
      | Some callbacks \<Rightarrow>
          (let index = indexOf callbacks callback
           in if index > - 1
              then es\<lparr> events := (events es)(event \<mapsto> array_splice callbacks index 1) \<rparr>
              else es))"

text \<open>The callbacks subscribed to an event at the moment, in the order of the array.\<close>

definition subscribers :: "eventSystem \<Rightarrow> string \<Rightarrow> nat list" where
  "subscribers es event = (case events es event of None \<Rightarrow> [] | Some cbs \<Rightarrow> cbs)"

text \<open>
  A client of the bus: a sequence of calls of its three methods. The result is the calls
  of callbacks made, each with the event that fired it.
\<close>

datatype 'd bus_op = On string nat | Off string nat | Emit string 'd

fun bus_run :: "eventSystem \<Rightarrow> 'd bus_op list \<Rightarrow> (string \<times> nat \<times> 'd) list" where
  "bus_run es [] = []"
| "bus_run es (On event callback # ops) = bus_run (EventSystem_on es event callback) ops"
| "bus_run es (Off event callback # ops) = bus_run (EventSystem_off es event callback) ops"
| "bus_run es (Emit event data # ops) =
     map (\<lambda>(callback, d). (event, callback, d)) (EventSystem_emit es event data) @ bus_run es ops"

subsection \<open>Inventory\<close>

text \<open>
  The description record of an item. \<open>icon\<close> and \<open>dialogue\<close> may be missing; the closure
  \<open>onUse\<close> is the host's and is left out.
\<close>

record itemData =
  name :: string
  icon :: "string option"
  description :: string
  dialogue :: "string option"

text \<open>
  \<open>container\<close> is the element \<open>inventoryItems\<close> of the page: one child per item, with its
  \<open>textContent\<close> (\<open>item.icon || '?'\<close>: a missing or empty icon gives \<open>?\<close>) and its \<open>title\<close>.
\<close>

record inventory =
  items :: "itemData list"
  maxItems :: int
  container :: "(string \<times> string) list"

definition Inventory_updateUI :: "inventory \<Rightarrow> inventory" where
  "Inventory_updateUI iv =
     iv\<lparr> container :=
           map (\<lambda>item. (case icon item of
                                None \<Rightarrow> ''?''
                              | Some t \<Rightarrow> if t \<noteq> [] then t else ''?'',
                              name item))
               (items iv) \<rparr>"

definition Inventory_new :: inventory where
  "Inventory_new = Inventory_updateUI \<lparr> items = [], maxItems = 10, container = [] \<rparr>"

definition Inventory_addItem :: "inventory \<Rightarrow> itemData \<Rightarrow> inventory \<times> bool" where
  "Inventory_addItem iv item =
     (if int (length (items iv)) < maxItems iv
      then (Inventory_updateUI (iv\<lparr> items := items iv @ [item] \<rparr>), True)
      else (iv, False))"

text \<open>A caller that adds the items of a list one after the other and keeps every answer.\<close>

fun addItems :: "inventory \<Rightarrow> itemData list \<Rightarrow> inventory \<times> bool list" where
  "addItems iv [] = (iv, [])"
| "addItems iv (item # rest) =
     (case Inventory_addItem iv item of
        (iv1, success) \<Rightarrow> (case addItems iv1 rest of (iv2, answers) \<Rightarrow> (iv2, success # answers)))"

text \<open>Two descriptions to run the inventory on.\<close>

definition key_data :: itemData where
  "key_data = \<lparr> name = ''key'', icon = Some ''K'', description = ''an old key'',
                dialogue = Some ''You got the key!'' \<rparr>"

definition gem_data :: itemData where
  "gem_data = \<lparr> name = ''gem'', icon = None, description = ''a shining gem'', dialogue = None \<rparr>"

subsection \<open>GameObject, Player, Item\<close>

record mouse =
  x :: real
  y :: real
  clicked :: bool

record gameObject =
  x :: real
  y :: real
  width :: real
  height :: real
  visible :: bool
  engine :: bool

record player = gameObject +
  speed :: real
  color :: string
  direction_x :: real
  direction_y :: real

record item = gameObject +
  itemData :: itemData
  collected :: bool
  hovered :: bool

datatype entity = GameObject gameObject | Player player | Item item

record bounds =
  x :: real
  y :: real
  width :: real
  height :: real

definition GameObject_new :: "real \<Rightarrow> real \<Rightarrow> real \<Rightarrow> real \<Rightarrow> gameObject" where
  "GameObject_new px py w h =
     \<lparr> gameObject.x = px, gameObject.y = py, gameObject.width = w, gameObject.height = h,
       visible = True, engine = False \<rparr>"

definition getBounds :: "'a gameObject_scheme \<Rightarrow> bounds" where
  "getBounds this =
     \<lparr> bounds.x = gameObject.x this, bounds.y = gameObject.y this,
       bounds.width = gameObject.width this, bounds.height = gameObject.height this \<rparr>"

definition isColliding :: "'a gameObject_scheme \<Rightarrow> 'b gameObject_scheme \<Rightarrow> bool" where
  "isColliding this other =
     (let bounds1 = getBounds this; bounds2 = getBounds other
      in bounds.x bounds1 < bounds.x bounds2 + bounds.width bounds2 \<and>
         bounds.x bounds1 + bounds.width bounds1 > bounds.x bounds2 \<and>
         bounds.y bounds1 < bounds.y bounds2 + bounds.height bounds2 \<and>
         bounds.y bounds1 + bounds.height bounds1 > bounds.y bounds2)"

definition Player_new :: "real \<Rightarrow> real \<Rightarrow> player" where
  "Player_new px py =
     \<lparr> gameObject.x = px, gameObject.y = py, gameObject.width = 32, gameObject.height = 32,
       visible = True, engine = False,
       speed = 200, color = ''#3498db'', direction_x = 0, direction_y = 0 \<rparr>"

definition Item_new :: "real \<Rightarrow> real \<Rightarrow> itemData \<Rightarrow> item" where
  "Item_new px py d =
     \<lparr> gameObject.x = px, gameObject.y = py, gameObject.width = 24, gameObject.height = 24,
       visible = True, engine = False,
       itemData = d, collected = False, hovered = False \<rparr>"

subsection \<open>Scene and engine state\<close>

record scene =
  engine :: bool
  gameObjects :: "nat list"
  background :: string

definition Scene_new :: scene where
  "Scene_new = \<lparr> scene.engine = False, scene.gameObjects = [], background = ''#34495e'' \<rparr>"

text \<open>What the engine passes to the callbacks of the bus.\<close>

datatype payload =
    KeyboardEvent string
  | ClickData real real
  | ItemCollected itemData

text \<open>
  The calls the engine makes into code that is not its own, or into a method that a subclass
  overrides: \<open>init\<close> of a scene, \<open>update\<close> of the engine and of an entity, \<open>render\<close>, an event
  callback, and the host's \<open>requestAnimationFrame\<close>. Scenes and entities are named by
  their address.
\<close>

datatype call =
    Init_call nat
  | Update_call real
  | Object_update_call nat real
  | Render_call
  | Callback_call string nat payload
  | RequestAnimationFrame_call

datatype error = TypeError

datatype 'a result = Ok (state_of: 'a) | Throws error (state_of: 'a)

text \<open>
  The fields of \<open>GameEngine\<close>, in the order of its constructor (the canvas is its two
  dimensions), followed by what the engine reaches from them: the store of entities, the
  store of scenes, the dialogue element of the page, and the record of calls.
  \<open>keys\<close> maps a key code to \<open>true\<close>, \<open>false\<close> or nothing (\<open>undefined\<close>).
\<close>

record gameEngine =
  width :: real
  height :: real
  currentScene :: "nat option"
  scenes :: "string \<rightharpoonup> nat"
  gameObjects :: "nat list"
  isRunning :: bool
  lastTime :: real
  keys :: "string \<rightharpoonup> bool"
  mouse :: mouse
  eventSystem :: eventSystem
  inventory :: inventory
  entities :: "nat \<rightharpoonup> entity"
  sceneStore :: "nat \<rightharpoonup> scene"
  dialogueText :: string
  dialogueHidden :: bool
  calls :: "call list"

definition GameEngine_new :: "real \<Rightarrow> real \<Rightarrow> gameEngine" where
  "GameEngine_new w h =
     \<lparr> gameEngine.width = w, gameEngine.height = h,
       currentScene = None, scenes = Map.empty, gameEngine.gameObjects = [],
       isRunning = False, lastTime = 0,
       keys = Map.empty,
       mouse = \<lparr> mouse.x = 0, mouse.y = 0, clicked = False \<rparr>,
       eventSystem = EventSystem_new,
       inventory = Inventory_new,
       entities = Map.empty, sceneStore = Map.empty,
       dialogueText = [], dialogueHidden = True,
       calls = [] \<rparr>"

text \<open>\<open>this.engine.eventSystem.emit(event, data)\<close>: the callbacks run before \<open>emit\<close> returns.\<close>

definition emit :: "gameEngine \<Rightarrow> string \<Rightarrow> payload \<Rightarrow> gameEngine" where
  "emit g event data =
     g\<lparr> calls := calls g @
           map (\<lambda>(callback, d). Callback_call event callback d)
               (EventSystem_emit (eventSystem g) event data) \<rparr>"

text \<open>The listeners that \<open>setupEventListeners\<close> installs; pointer coordinates are canvas-relative.\<close>

definition on_keydown :: "gameEngine \<Rightarrow> string \<Rightarrow> gameEngine" where
  "on_keydown g code = emit (g\<lparr> keys := (keys g)(code \<mapsto> True) \<rparr>) ''keydown'' (KeyboardEvent code)"

definition on_keyup :: "gameEngine \<Rightarrow> string \<Rightarrow> gameEngine" where
  "on_keyup g code = emit (g\<lparr> keys := (keys g)(code \<mapsto> False) \<rparr>) ''keyup'' (KeyboardEvent code)"

definition on_mousemove :: "gameEngine \<Rightarrow> real \<Rightarrow> real \<Rightarrow> gameEngine" where
  "on_mousemove g px py = g\<lparr> mouse := (mouse g)\<lparr> mouse.x := px, mouse.y := py \<rparr> \<rparr>"

definition on_click :: "gameEngine \<Rightarrow> gameEngine" where
  "on_click g =
     (let g1 = g\<lparr> mouse := (mouse g)\<lparr> clicked := True \<rparr> \<rparr>
      in emit g1 ''click'' (ClickData (mouse.x (mouse g1)) (mouse.y (mouse g1))))"

subsection \<open>Player.update\<close>

definition pressed :: "gameEngine \<Rightarrow> string \<Rightarrow> bool" where
  "pressed g code = (keys g code = Some True)"

text \<open>
  The key reads are guarded by \<open>if (this.engine)\<close>; the border check reads
  \<open>this.engine.width\<close> without a guard and throws on a player that no engine owns.
\<close>

definition Player_update :: "gameEngine \<Rightarrow> player \<Rightarrow> real \<Rightarrow> player result" where
  "Player_update g this deltaTime =
     (let dx0 = (0::real); dy0 = (0::real);
          dx1 = (if gameObject.engine this \<and> (pressed g ''ArrowLeft'' \<or> pressed g ''KeyA'')
                 then - 1 else dx0);
          dx2 = (if gameObject.engine this \<and> (pressed g ''ArrowRight'' \<or> pressed g ''KeyD'')
                 then 1 else dx1);
          dy1 = (if gameObject.engine this \<and> (pressed g ''ArrowUp'' \<or> pressed g ''KeyW'')
                 then - 1 else dy0);
          dy2 = (if gameObject.engine this \<and> (pressed g ''ArrowDown'' \<or> pressed g ''KeyS'')
                 then 1 else dy1);
          dx = (if dx2 \<noteq> 0 \<and> dy2 \<noteq> 0 then dx2 * 0.707 else dx2);
          dy = (if dx2 \<noteq> 0 \<and> dy2 \<noteq> 0 then dy2 * 0.707 else dy2);
          moved = this\<lparr> direction_x := dx, direction_y := dy,
                        gameObject.x := gameObject.x this + dx * speed this * deltaTime / 1000,
                        gameObject.y := gameObject.y this + dy * speed this * deltaTime / 1000 \<rparr>
      in if \<not> gameObject.engine this then Throws TypeError moved
         else Ok (moved\<lparr>
                gameObject.x :=
                  max 0 (min (gameObject.x moved) (gameEngine.width g - gameObject.width moved)),
                gameObject.y :=
                  max 0 (min (gameObject.y moved) (gameEngine.height g - gameObject.height moved)) \<rparr>))"

subsection \<open>Item.update and Item.collect\<close>

text \<open>\<open>showDialogue\<close> fills the dialogue element and shows it; its timer is the host's.\<close>

definition showDialogue :: "gameEngine \<Rightarrow> string \<Rightarrow> gameEngine" where
  "showDialogue g text = g\<lparr> dialogueText := text, dialogueHidden := False \<rparr>"

definition Item_collect :: "gameEngine \<Rightarrow> item \<Rightarrow> item \<times> gameEngine" where
  "Item_collect g this =
     (if collected this then (this, g)
      else
        (let this1 = this\<lparr> collected := True \<rparr>
         in if gameObject.engine this1
            then (case Inventory_addItem (inventory g) (itemData this1) of
                    (iv, success) \<Rightarrow>
                      (let g1 = g\<lparr> inventory := iv \<rparr>
                       in if success
                          then (let g2 = emit g1 ''itemCollected'' (ItemCollected (itemData this1))
                                in case dialogue (itemData this1) of
                                     None \<Rightarrow> (this1, g2)
                                   | Some text \<Rightarrow>
                                       if text \<noteq> [] then (this1, showDialogue g2 text)
                                       else (this1, g2))
                          else (this1, g1)))
            else (this1, g)))"

definition Item_update :: "gameEngine \<Rightarrow> item \<Rightarrow> real \<Rightarrow> item \<times> gameEngine" where
  "Item_update g this deltaTime =
     (if collected this then (this, g)
      else
        (let this1 =
               (if gameObject.engine this
                then this\<lparr> hovered :=
                       mouse.x (mouse g) \<ge> gameObject.x this \<and>
                       mouse.x (mouse g) \<le> gameObject.x this + gameObject.width this \<and>
                       mouse.y (mouse g) \<ge> gameObject.y this \<and>
                       mouse.y (mouse g) \<le> gameObject.y this + gameObject.height this \<rparr>
                else this)
         in if hovered this1 \<and> gameObject.engine this1 \<and> clicked (mouse g)
            then Item_collect g this1
            else (this1, g)))"

subsection \<open>Dispatch of update\<close>

text \<open>
  \<open>obj.update(deltaTime)\<close> on the entity at an address: the method of its class runs on
  the stored object and the object is written back. \<open>GameObject.update\<close> has an empty
  body. An address outside the store does not occur (a reference always has a target);
  the model leaves the state as it is there.
\<close>

definition GameObject_update :: "gameEngine \<Rightarrow> nat \<Rightarrow> real \<Rightarrow> gameEngine result" where
  "GameObject_update g ref deltaTime =
     (case entities g ref of
        None \<Rightarrow> Ok g
      | Some (GameObject obj) \<Rightarrow> Ok g
      | Some (Player obj) \<Rightarrow>
          (case Player_update g obj deltaTime of
             Ok obj1 \<Rightarrow> Ok (g\<lparr> entities := (entities g)(ref \<mapsto> Player obj1) \<rparr>)
           | Throws e obj1 \<Rightarrow> Throws e (g\<lparr> entities := (entities g)(ref \<mapsto> Player obj1) \<rparr>))
      | Some (Item obj) \<Rightarrow>
          (case Item_update g obj deltaTime of
             (obj1, g1) \<Rightarrow> Ok (g1\<lparr> entities := (entities g1)(ref \<mapsto> Item obj1) \<rparr>)))"

text \<open>
  The loop \<open>objs.forEach(obj => { if (obj.update) { obj.update(deltaTime); } })\<close> of
  \<open>Scene.update\<close> and of \<open>GameEngine.update\<close>. Every class of entity has an \<open>update\<close>
  method, so the test holds; an exception leaves the loop.
\<close>

fun forEach_update :: "gameEngine \<Rightarrow> nat list \<Rightarrow> real \<Rightarrow> gameEngine result" where
  "forEach_update g [] deltaTime = Ok g"
| "forEach_update g (ref # rest) deltaTime =
     (case GameObject_update (g\<lparr> calls := calls g @ [Object_update_call ref deltaTime] \<rparr>)
             ref deltaTime of
        Ok g1 \<Rightarrow> forEach_update g1 rest deltaTime
      | Throws e g1 \<Rightarrow> Throws e g1)"

subsection \<open>Scene\<close>

text \<open>
  \<open>Scene.init\<close> has an empty body; subclasses override it. The call is recorded.
  \<open>GameScene.update\<close> calls \<open>Scene.update\<close> and then tests the player against the items
  without acting on the answer, so \<open>Scene_update\<close> stands for both.
\<close>

definition Scene_init :: "gameEngine \<Rightarrow> nat \<Rightarrow> gameEngine" where
  "Scene_init g sref = g\<lparr> calls := calls g @ [Init_call sref] \<rparr>"

definition GameEngine_addGameObject :: "gameEngine \<Rightarrow> nat \<Rightarrow> gameEngine" where
  "GameEngine_addGameObject g ref =
     g\<lparr> gameEngine.gameObjects := gameEngine.gameObjects g @ [ref],
        entities :=
          (case entities g ref of
             None \<Rightarrow> entities g
           | Some (GameObject obj) \<Rightarrow>
               (entities g)(ref \<mapsto> GameObject (obj\<lparr> gameObject.engine := True \<rparr>))
           | Some (Player obj) \<Rightarrow>
               (entities g)(ref \<mapsto> Player (obj\<lparr> gameObject.engine := True \<rparr>))
           | Some (Item obj) \<Rightarrow>
               (entities g)(ref \<mapsto> Item (obj\<lparr> gameObject.engine := True \<rparr>))) \<rparr>"

definition Scene_addGameObject :: "gameEngine \<Rightarrow> nat \<Rightarrow> nat \<Rightarrow> gameEngine" where
  "Scene_addGameObject g sref ref =
     (case sceneStore g sref of
        None \<Rightarrow> g
      | Some this \<Rightarrow>
          (let g1 = g\<lparr> sceneStore :=
                       (sceneStore g)(sref \<mapsto> this\<lparr> scene.gameObjects := scene.gameObjects this @ [ref] \<rparr>) \<rparr>
           in if scene.engine this then GameEngine_addGameObject g1 ref else g1))"

definition Scene_update :: "gameEngine \<Rightarrow> nat \<Rightarrow> real \<Rightarrow> gameEngine result" where
  "Scene_update g sref deltaTime =
     (case sceneStore g sref of
        None \<Rightarrow> Ok g
      | Some this \<Rightarrow> forEach_update g (scene.gameObjects this) deltaTime)"

subsection \<open>GameEngine\<close>

definition GameEngine_addScene :: "gameEngine \<Rightarrow> string \<Rightarrow> nat \<Rightarrow> gameEngine" where
  "GameEngine_addScene g nm sref =
     g\<lparr> scenes := (scenes g)(nm \<mapsto> sref),
        sceneStore :=
          (case sceneStore g sref of
             None \<Rightarrow> sceneStore g
           | Some sc \<Rightarrow> (sceneStore g)(sref \<mapsto> sc\<lparr> scene.engine := True \<rparr>)) \<rparr>"

definition GameEngine_setScene :: "gameEngine \<Rightarrow> string \<Rightarrow> gameEngine" where
  "GameEngine_setScene g nm =
     (case scenes g nm of
        None \<Rightarrow> g
      | Some sref \<Rightarrow> Scene_init (g\<lparr> currentScene := Some sref \<rparr>) sref)"

definition GameEngine_removeGameObject :: "gameEngine \<Rightarrow> nat \<Rightarrow> gameEngine" where
  "GameEngine_removeGameObject g ref =
     (let index = indexOf (gameEngine.gameObjects g) ref
      in if index > - 1
         then g\<lparr> gameEngine.gameObjects := array_splice (gameEngine.gameObjects g) index 1 \<rparr>
         else g)"

definition GameEngine_update :: "gameEngine \<Rightarrow> real \<Rightarrow> gameEngine result" where
  "GameEngine_update g deltaTime =
     (let g0 = g\<lparr> calls := calls g @ [Update_call deltaTime] \<rparr>
      in case (case currentScene g0 of
                 None \<Rightarrow> Ok g0
               | Some sref \<Rightarrow> Scene_update g0 sref deltaTime) of
           Throws e g1 \<Rightarrow> Throws e g1
         | Ok g1 \<Rightarrow>
             (case forEach_update g1 (gameEngine.gameObjects g1) deltaTime of
                Throws e g2 \<Rightarrow> Throws e g2
              | Ok g2 \<Rightarrow> Ok (g2\<lparr> mouse := (mouse g2)\<lparr> clicked := False \<rparr> \<rparr>)))"

text \<open>\<open>render\<close> draws on the canvas and changes nothing else; the call is recorded.\<close>

definition GameEngine_render :: "gameEngine \<Rightarrow> gameEngine" where
  "GameEngine_render g = g\<lparr> calls := calls g @ [Render_call] \<rparr>"

definition requestAnimationFrame :: "gameEngine \<Rightarrow> gameEngine" where
  "requestAnimationFrame g = g\<lparr> calls := calls g @ [RequestAnimationFrame_call] \<rparr>"

definition GameEngine_gameLoop :: "gameEngine \<Rightarrow> real \<Rightarrow> gameEngine result" where
  "GameEngine_gameLoop g currentTime =
     (if \<not> isRunning g then Ok g
      else
        (let deltaTime = currentTime - lastTime g;
             g1 = g\<lparr> lastTime := currentTime \<rparr>
         in case GameEngine_update g1 deltaTime of
              Throws e g2 \<Rightarrow> Throws e g2
            | Ok g2 \<Rightarrow> Ok (requestAnimationFrame (GameEngine_render g2))))"

text \<open>\<open>start\<close> reads the clock (\<open>performance.now()\<close>, here the argument) and runs the first tick.\<close>

definition GameEngine_start :: "gameEngine \<Rightarrow> real \<Rightarrow> gameEngine result" where
  "GameEngine_start g now =
     (let g1 = g\<lparr> isRunning := True \<rparr>;
          g2 = g1\<lparr> lastTime := now \<rparr>
      in GameEngine_gameLoop g2 (lastTime g2))"

definition GameEngine_stop :: "gameEngine \<Rightarrow> gameEngine" where
  "GameEngine_stop g = g\<lparr> isRunning := False \<rparr>"

text \<open>The arguments of the calls of \<open>GameEngine.update\<close> in a record of calls, in order.\<close>

fun update_deltas :: "call list \<Rightarrow> real list" where
  "update_deltas [] = []"
| "update_deltas (Update_call d # cs) = d # update_deltas cs"
| "update_deltas (c # cs) = update_deltas cs"

text \<open>How often \<open>init\<close> of the scene at an address was called.\<close>

fun init_count :: "nat \<Rightarrow> call list \<Rightarrow> nat" where
  "init_count sref [] = 0"
| "init_count sref (Init_call r # cs) = (if r = sref then 1 else 0) + init_count sref cs"
| "init_count sref (c # cs) = init_count sref cs"

text \<open>The calls \<open>obj.update(deltaTime)\<close> in a record of calls, in order.\<close>

fun object_updates :: "call list \<Rightarrow> (nat \<times> real) list" where
  "object_updates [] = []"
| "object_updates (Object_update_call ref d # cs) = (ref, d) # object_updates cs"
| "object_updates (c # cs) = object_updates cs"

subsection \<open>Concrete states\<close>

text \<open>
  An 800 by 600 engine whose inventory holds ten items, with the pointer moved over an item
  at (200, 150) and clicked; and the item, owned by the engine.
\<close>

definition full_inventory :: inventory where
  "full_inventory = fst (addItems Inventory_new (replicate 10 key_data))"

definition clicked_engine :: gameEngine where
  "clicked_engine =
     on_click (on_mousemove ((GameEngine_new 800 600)\<lparr> inventory := full_inventory \<rparr>) 210 160)"

definition gem_item :: item where
  "gem_item = (Item_new 200 150 gem_data)\<lparr> gameObject.engine := True \<rparr>"

text \<open>A player owned by the engine, and the engine with the keys right and down held.\<close>

definition owned_player :: "real \<Rightarrow> real \<Rightarrow> player" where
  "owned_player px py = (Player_new px py)\<lparr> gameObject.engine := True \<rparr>"

definition diagonal_engine :: gameEngine where
  "diagonal_engine = on_keydown (on_keydown (GameEngine_new 800 600) ''ArrowRight'') ''KeyS''"

text \<open>
  An engine with one scene, stored at address 0 and registered as \<open>game\<close>, and a player,
  stored at address 1 and not yet added to anything.
\<close>

definition game_engine :: gameEngine where
  "game_engine =
     GameEngine_addScene
       ((GameEngine_new 800 600)\<lparr> entities := [1 \<mapsto> Player (Player_new 100 100)],
                                   sceneStore := [0 \<mapsto> Scene_new] \<rparr>)
       ''game'' 0"

text \<open>That engine with the scene made current and the right key held.\<close>

definition current_engine :: gameEngine where
  "current_engine = on_keydown (GameEngine_setScene game_engine ''game'') ''ArrowRight''"

section \<open>Properties\<close>

subsection \<open>Arrays and the event bus\<close>

lemma indexOf_ge: "indexOf xs v \<ge> - 1"
  by (induction xs) (auto simp: Let_def)

lemma indexOf_found: "(indexOf xs v > - 1) = (v \<in> set xs)"
  by (induction xs) (auto simp: Let_def)

lemma splice_indexOf: "v \<in> set xs \<Longrightarrow> array_splice xs (indexOf xs v) (Suc 0) = remove1 v xs"
proof (induction xs)
  case Nil
  then show ?case by simp
next
  case (Cons a xs)
  show ?case
  proof (cases "a = v")
    case True
    then show ?thesis by (simp add: array_splice_def)
  next
    case False
    with Cons.prems have mem: "v \<in> set xs" by simp
    then have pos: "indexOf xs v > - 1" by (simp add: indexOf_found)
    then have n: "nat (indexOf xs v + 1) = Suc (nat (indexOf xs v))" by simp
    from Cons.IH [OF mem] False pos show ?thesis
      by (simp add: array_splice_def Let_def n)
  qed
qed

lemma subscribers_on:
  "subscribers (EventSystem_on es ev cb) ev' =
     (if ev' = ev then subscribers es ev @ [cb] else subscribers es ev')"
  by (auto simp: subscribers_def EventSystem_on_def Let_def split: option.splits)

lemma subscribers_off:
  "subscribers (EventSystem_off es ev cb) ev' =
     (if ev' = ev then remove1 cb (subscribers es ev) else subscribers es ev')"
  by (auto simp: subscribers_def EventSystem_off_def Let_def indexOf_found splice_indexOf
        remove1_idem split: option.splits)

lemma emit_subscribers:
  "EventSystem_emit es ev d = map (\<lambda>cb. (cb, d)) (subscribers es ev)"
  by (simp add: EventSystem_emit_def subscribers_def split: option.splits)

lemma bus_run_not_invoked:
  "cb \<notin> set (subscribers es ev) \<Longrightarrow> On ev cb \<notin> set ops \<Longrightarrow> (ev, cb, d) \<notin> set (bus_run es ops)"
proof (induction ops arbitrary: es)
  case Nil
  then show ?case by simp
next
  case (Cons op ops)
  show ?case
  proof (cases op)
    case (On ev' cb')
    with Cons.prems have "cb \<notin> set (subscribers (EventSystem_on es ev' cb') ev)"
      by (auto simp: subscribers_on)
    with Cons.IH Cons.prems On show ?thesis by simp
  next
    case (Off ev' cb')
    with Cons.prems have "cb \<notin> set (subscribers (EventSystem_off es ev' cb') ev)"
      by (auto simp: subscribers_off dest: notin_set_remove1)
    with Cons.IH Cons.prems Off show ?thesis by simp
  next
    case (Emit ev' d')
    with Cons.IH Cons.prems show ?thesis
      by (auto simp: emit_subscribers)
  qed
qed



text \<open>
  Claim C9. \<open>emit\<close> calls the callbacks subscribed to the event at that moment, each once
  per subscription, in the order of subscription, each with the payload. \<open>on\<close> appends to
  that order and \<open>off\<close> removes the first occurrence. With no subscriber \<open>emit\<close> makes
  no call. A callback that is subscribed and then unsubscribed is not called for that event by
  anything the client does afterwards, as long as it is not subscribed again.
\<close>

theorem EventSystem_publish_order:
  "EventSystem_emit es ev d = map (\<lambda>cb. (cb, d)) (subscribers es ev)
   \<and> subscribers (EventSystem_on es ev cb) ev = subscribers es ev @ [cb]
   \<and> subscribers (EventSystem_off es ev cb) ev = remove1 cb (subscribers es ev)
   \<and> (subscribers es ev = [] \<longrightarrow> EventSystem_emit es ev d = [])
   \<and> (cb \<notin> set (subscribers es ev) \<and> On ev cb \<notin> set ops \<longrightarrow>
        (\<forall>d'. (ev, cb, d') \<notin> set (bus_run (EventSystem_off (EventSystem_on es ev cb) ev cb) ops)))"
proof -
  have gone: "\<forall>d'. (ev, cb, d') \<notin> set (bus_run (EventSystem_off (EventSystem_on es ev cb) ev cb) ops)"
    if fresh: "cb \<notin> set (subscribers es ev)" and quiet: "On ev cb \<notin> set ops"
  proof
    fix d'
    from fresh have "cb \<notin> set (subscribers (EventSystem_off (EventSystem_on es ev cb) ev cb) ev)"
      by (simp add: subscribers_on subscribers_off remove1_append)
    then show "(ev, cb, d') \<notin> set (bus_run (EventSystem_off (EventSystem_on es ev cb) ev cb) ops)"
      using quiet by (rule bus_run_not_invoked)
  qed
  have a: "EventSystem_emit es ev d = map (\<lambda>cb. (cb, d)) (subscribers es ev)"
    by (rule emit_subscribers)
  have b: "subscribers (EventSystem_on es ev cb) ev = subscribers es ev @ [cb]"
    by (simp add: subscribers_on)
  have c: "subscribers (EventSystem_off es ev cb) ev = remove1 cb (subscribers es ev)"
    by (simp add: subscribers_off)
  have e: "subscribers es ev = [] \<longrightarrow> EventSystem_emit es ev d = []"
    by (simp add: emit_subscribers)
  from a b c e gone show ?thesis by blast
qed

theorem EventSystem_publish_order_witness:
  "subscribers EventSystem_new ''click'' = []
   \<and> EventSystem_emit EventSystem_new ''click'' (0::nat) = []
   \<and> 7 \<notin> set (subscribers EventSystem_new ''click'')
   \<and> On ''click'' 7 \<notin> set [On ''click'' 8, Emit ''click'' (1::nat), Off ''click'' 8, Emit ''click'' 2]
   \<and> (\<forall>d'. (''click'', 7, d') \<notin>
         set (bus_run (EventSystem_off (EventSystem_on EventSystem_new ''click'' 7) ''click'' 7)
                [On ''click'' 8, Emit ''click'' (1::nat), Off ''click'' 8, Emit ''click'' 2]))"
  using EventSystem_publish_order [of EventSystem_new "''click''" "0::nat" 7
      "[On ''click'' 8, Emit ''click'' (1::nat), Off ''click'' 8, Emit ''click'' 2]"]
  by (simp add: subscribers_def EventSystem_new_def)

subsection \<open>Collision\<close>

text \<open>
  Claim C4. \<open>isColliding\<close> holds exactly when the four strict inequalities between the
  bounds hold. Rectangles that only touch at an edge do not collide
  (\<open>{0,0,10,10}\<close> and \<open>{10,0,10,10}\<close>); \<open>{0,0,10,10}\<close> and \<open>{5,5,10,10}\<close> do.
\<close>

theorem isColliding_strict:
  "isColliding a b =
     (gameObject.x a < gameObject.x b + gameObject.width b \<and>
      gameObject.x a + gameObject.width a > gameObject.x b \<and>
      gameObject.y a < gameObject.y b + gameObject.height b \<and>
      gameObject.y a + gameObject.height a > gameObject.y b)
   \<and> \<not> isColliding (GameObject_new 0 0 10 10) (GameObject_new 10 0 10 10)
   \<and> isColliding (GameObject_new 0 0 10 10) (GameObject_new 5 5 10 10)"
  by (simp add: isColliding_def getBounds_def GameObject_new_def Let_def)

subsection \<open>Inventory\<close>

lemma addItem_room:
  "int (length (items iv)) < maxItems iv \<Longrightarrow>
     Inventory_addItem iv item = (Inventory_updateUI (iv\<lparr> items := items iv @ [item] \<rparr>), True)"
  by (simp add: Inventory_addItem_def)

lemma addItem_full:
  "\<not> int (length (items iv)) < maxItems iv \<Longrightarrow> Inventory_addItem iv item = (iv, False)"
  by (simp add: Inventory_addItem_def)

lemma items_updateUI: "items (Inventory_updateUI iv) = items iv"
  by (simp add: Inventory_updateUI_def)

lemma maxItems_updateUI: "maxItems (Inventory_updateUI iv) = maxItems iv"
  by (simp add: Inventory_updateUI_def)

lemma addItems_Cons:
  "addItems iv (a # xs) =
     (fst (addItems (fst (Inventory_addItem iv a)) xs),
      snd (Inventory_addItem iv a) # snd (addItems (fst (Inventory_addItem iv a)) xs))"
  by (simp split: prod.splits)

lemma addItems_room:
  "int (length (items iv) + length xs) \<le> maxItems iv \<Longrightarrow>
     snd (addItems iv xs) = replicate (length xs) True \<and>
     items (fst (addItems iv xs)) = items iv @ xs \<and>
     maxItems (fst (addItems iv xs)) = maxItems iv"
proof (induction xs arbitrary: iv)
  case Nil
  then show ?case by simp
next
  case (Cons a xs)
  let ?iv1 = "Inventory_updateUI (iv\<lparr> items := items iv @ [a] \<rparr>)"
  from Cons.prems have step: "Inventory_addItem iv a = (?iv1, True)"
    by (simp add: addItem_room)
  from Cons.prems have "int (length (items ?iv1) + length xs) \<le> maxItems ?iv1"
    by (simp add: items_updateUI maxItems_updateUI)
  from Cons.IH [OF this] step show ?case
    by (simp only: addItems_Cons) (simp add: items_updateUI maxItems_updateUI)
qed

lemma addItems_append:
  "addItems iv (xs @ ys) =
     (fst (addItems (fst (addItems iv xs)) ys),
      snd (addItems iv xs) @ snd (addItems (fst (addItems iv xs)) ys))"
  by (induction xs arbitrary: iv) (simp_all split: prod.splits)

text \<open>
  Claim C8. With capacity 10, \<open>addItem\<close> answers \<open>true\<close> exactly when fewer than 10 items
  are held, and then appends the item; otherwise the items stay as they are. From the new
  inventory ten calls answer \<open>true\<close>, the eleventh answers \<open>false\<close> and leaves the
  inventory, with its ten items, unchanged.
\<close>

theorem Inventory_capacity:
  "(maxItems iv = 10 \<longrightarrow>
      snd (Inventory_addItem iv item) = (length (items iv) < 10) \<and>
      items (fst (Inventory_addItem iv item)) =
        (if length (items iv) < 10 then items iv @ [item] else items iv))
   \<and> (length ten = 10 \<longrightarrow>
        snd (addItems Inventory_new ten) = replicate 10 True \<and>
        items (fst (addItems Inventory_new ten)) = ten \<and>
        Inventory_addItem (fst (addItems Inventory_new ten)) eleventh
          = (fst (addItems Inventory_new ten), False) \<and>
        snd (addItems Inventory_new (ten @ [eleventh])) = replicate 10 True @ [False] \<and>
        items (fst (addItems Inventory_new (ten @ [eleventh]))) = ten \<and>
        length (items (fst (addItems Inventory_new (ten @ [eleventh])))) = 10)"
proof -
  have one: "snd (Inventory_addItem iv item) = (length (items iv) < 10) \<and>
      items (fst (Inventory_addItem iv item)) =
        (if length (items iv) < 10 then items iv @ [item] else items iv)"
    if "maxItems iv = 10"
    using that by (simp add: Inventory_addItem_def items_updateUI)
  have new: "items Inventory_new = []" "maxItems Inventory_new = 10"
    by (simp_all add: Inventory_new_def items_updateUI maxItems_updateUI)
  have many: "snd (addItems Inventory_new ten) = replicate 10 True \<and>
        items (fst (addItems Inventory_new ten)) = ten \<and>
        Inventory_addItem (fst (addItems Inventory_new ten)) eleventh
          = (fst (addItems Inventory_new ten), False) \<and>
        snd (addItems Inventory_new (ten @ [eleventh])) = replicate 10 True @ [False] \<and>
        items (fst (addItems Inventory_new (ten @ [eleventh]))) = ten \<and>
        length (items (fst (addItems Inventory_new (ten @ [eleventh])))) = 10"
    if len: "length ten = 10"
  proof -
    from len new have "int (length (items Inventory_new) + length ten) \<le> maxItems Inventory_new"
      by simp
    from addItems_room [OF this] len new
    have r: "snd (addItems Inventory_new ten) = replicate 10 True"
      and i: "items (fst (addItems Inventory_new ten)) = ten"
      and m: "maxItems (fst (addItems Inventory_new ten)) = 10"
      by simp_all
    from i m len have full: "Inventory_addItem (fst (addItems Inventory_new ten)) eleventh
          = (fst (addItems Inventory_new ten), False)"
      by (simp add: addItem_full)
    from r i full len show ?thesis
      by (simp add: addItems_append)
  qed
  from one many show ?thesis by blast
qed

theorem Inventory_capacity_witness:
  "maxItems Inventory_new = 10
   \<and> snd (Inventory_addItem Inventory_new key_data) = True
   \<and> items (fst (Inventory_addItem Inventory_new key_data)) = [key_data]
   \<and> length (replicate 10 key_data) = 10
   \<and> snd (addItems Inventory_new (replicate 10 key_data @ [gem_data])) = replicate 10 True @ [False]
   \<and> items (fst (addItems Inventory_new (replicate 10 key_data @ [gem_data]))) = replicate 10 key_data"
  using Inventory_capacity [of Inventory_new key_data "replicate 10 key_data" gem_data]
  by (simp add: Inventory_new_def Inventory_updateUI_def)

subsection \<open>Hover\<close>

lemma Item_collect_hovered: "hovered (fst (Item_collect g this)) = hovered this"
  by (simp add: Item_collect_def Let_def split: prod.splits option.splits)

text \<open>
  Claim C5. For an item that is not collected and that the engine owns, the flag \<open>hovered\<close>
  after \<open>Item.update\<close> is true exactly when the pointer lies in the closed rectangle
  \<open>[x, x+w] \<times> [y, y+h]\<close>. With \<open>w, h \<ge> 0\<close> the pointer at the corner \<open>(x+w, y+h)\<close>
  hovers, while an entity that starts at that corner does not collide with the item.
\<close>

theorem Item_hover_closed:
  "\<not> collected this \<and> gameObject.engine this \<longrightarrow>
     hovered (fst (Item_update g this dt)) =
       (gameObject.x this \<le> mouse.x (mouse g) \<and>
        mouse.x (mouse g) \<le> gameObject.x this + gameObject.width this \<and>
        gameObject.y this \<le> mouse.y (mouse g) \<and>
        mouse.y (mouse g) \<le> gameObject.y this + gameObject.height this)
     \<and> (0 \<le> gameObject.width this \<and> 0 \<le> gameObject.height this \<and>
          mouse.x (mouse g) = gameObject.x this + gameObject.width this \<and>
          mouse.y (mouse g) = gameObject.y this + gameObject.height this
          \<longrightarrow> hovered (fst (Item_update g this dt)))
     \<and> (gameObject.x other = gameObject.x this + gameObject.width this \<and>
          gameObject.y other = gameObject.y this + gameObject.height this
          \<longrightarrow> \<not> isColliding this other)"
proof (intro impI)
  assume a: "\<not> collected this \<and> gameObject.engine this"
  let ?inside = "gameObject.x this \<le> mouse.x (mouse g) \<and>
        mouse.x (mouse g) \<le> gameObject.x this + gameObject.width this \<and>
        gameObject.y this \<le> mouse.y (mouse g) \<and>
        mouse.y (mouse g) \<le> gameObject.y this + gameObject.height this"
  from a have h: "hovered (fst (Item_update g this dt)) = ?inside"
    by (simp add: Item_update_def Let_def Item_collect_hovered)
  have c: "\<not> isColliding this other"
    if "gameObject.x other = gameObject.x this + gameObject.width this"
    using that by (simp add: isColliding_def getBounds_def Let_def)
  from h c show "hovered (fst (Item_update g this dt)) = ?inside
     \<and> (0 \<le> gameObject.width this \<and> 0 \<le> gameObject.height this \<and>
          mouse.x (mouse g) = gameObject.x this + gameObject.width this \<and>
          mouse.y (mouse g) = gameObject.y this + gameObject.height this
          \<longrightarrow> hovered (fst (Item_update g this dt)))
     \<and> (gameObject.x other = gameObject.x this + gameObject.width this \<and>
          gameObject.y other = gameObject.y this + gameObject.height this
          \<longrightarrow> \<not> isColliding this other)"
    by simp
qed


theorem Item_hover_closed_witness:
  "\<not> collected gem_item \<and> gameObject.engine gem_item
   \<and> 0 \<le> gameObject.width gem_item \<and> 0 \<le> gameObject.height gem_item
   \<and> mouse.x (mouse (on_mousemove (GameEngine_new 800 600) 224 174))
         = gameObject.x gem_item + gameObject.width gem_item
   \<and> mouse.y (mouse (on_mousemove (GameEngine_new 800 600) 224 174))
         = gameObject.y gem_item + gameObject.height gem_item
   \<and> hovered (fst (Item_update (on_mousemove (GameEngine_new 800 600) 224 174) gem_item 16))
   \<and> gameObject.x (GameObject_new 224 174 10 10) = gameObject.x gem_item + gameObject.width gem_item
   \<and> gameObject.y (GameObject_new 224 174 10 10) = gameObject.y gem_item + gameObject.height gem_item
   \<and> \<not> isColliding gem_item (GameObject_new 224 174 10 10)"
  using Item_hover_closed [of gem_item "on_mousemove (GameEngine_new 800 600) 224 174" 16
      "GameObject_new 224 174 10 10"]
  by (simp add: gem_item_def Item_new_def on_mousemove_def GameEngine_new_def GameObject_new_def)

subsection \<open>Player movement\<close>

lemma sqrt_diagonal:
  "\<bar>sqrt ((1414 / 10)\<^sup>2 + (1414 / 10)\<^sup>2) - 200\<bar> < 1 / 10"
  "sqrt ((1414 / 10)\<^sup>2 + (1414 / 10)\<^sup>2) < 200 * sqrt 2"
proof -
  let ?m = "sqrt ((1414 / 10)\<^sup>2 + (1414 / 10)\<^sup>2 :: real)"
  have lo: "1999 / 10 < ?m"
    by (rule real_less_rsqrt) (simp add: power2_eq_square)
  have hi: "?m < 2001 / 10"
    by (rule real_less_lsqrt) (simp_all add: power2_eq_square)
  from lo hi show "\<bar>?m - 200\<bar> < 1 / 10" by linarith
  have sq: "(200 * sqrt 2)\<^sup>2 = (80000::real)"
    by (simp add: power_mult_distrib)
  show "?m < 200 * sqrt 2"
  proof (rule real_less_lsqrt)
    show "0 \<le> 200 * sqrt 2" by simp
    show "(1414 / 10)\<^sup>2 + (1414 / 10)\<^sup>2 < (200 * sqrt 2)\<^sup>2"
      unfolding sq by (simp add: power2_eq_square)
  qed
qed

text \<open>
  Claim C6. A player of speed 200 owned by the engine, with a right key and a down key
  held and far enough from the borders, moves in one update of 1000 ms by
  \<open>200 * 0.707 = 141.4\<close> on each axis; the length of the step is within 0.1 of 200 and
  below \<open>200 * sqrt 2\<close>.
\<close>

theorem Player_diagonal_step:
  "gameObject.engine p \<and> speed p = 200
   \<and> (pressed g ''ArrowRight'' \<or> pressed g ''KeyD'')
   \<and> (pressed g ''ArrowDown'' \<or> pressed g ''KeyS'')
   \<and> 0 \<le> gameObject.x p + 141.4
   \<and> gameObject.x p + 141.4 \<le> gameEngine.width g - gameObject.width p
   \<and> 0 \<le> gameObject.y p + 141.4
   \<and> gameObject.y p + 141.4 \<le> gameEngine.height g - gameObject.height p
   \<longrightarrow>
     (\<exists>q. Player_update g p 1000 = Ok q
        \<and> gameObject.x q - gameObject.x p = 200 * 0.707
        \<and> gameObject.y q - gameObject.y p = 200 * 0.707
        \<and> gameObject.x q = gameObject.x p + 141.4
        \<and> gameObject.y q = gameObject.y p + 141.4
        \<and> \<bar>sqrt ((gameObject.x q - gameObject.x p)\<^sup>2 + (gameObject.y q - gameObject.y p)\<^sup>2) - 200\<bar> < 0.1
        \<and> sqrt ((gameObject.x q - gameObject.x p)\<^sup>2 + (gameObject.y q - gameObject.y p)\<^sup>2)
              < 200 * sqrt 2)"
proof
  assume a: "gameObject.engine p \<and> speed p = 200
   \<and> (pressed g ''ArrowRight'' \<or> pressed g ''KeyD'')
   \<and> (pressed g ''ArrowDown'' \<or> pressed g ''KeyS'')
   \<and> 0 \<le> gameObject.x p + 141.4
   \<and> gameObject.x p + 141.4 \<le> gameEngine.width g - gameObject.width p
   \<and> 0 \<le> gameObject.y p + 141.4
   \<and> gameObject.y p + 141.4 \<le> gameEngine.height g - gameObject.height p"
  define q where "q = p\<lparr> direction_x := 0.707, direction_y := 0.707,
      gameObject.x := gameObject.x p + 141.4, gameObject.y := gameObject.y p + 141.4 \<rparr>"
  from a have upd: "Player_update g p 1000 = Ok q"
    unfolding Player_update_def q_def Let_def by (simp add: min_def max_def)
  have dx: "gameObject.x q - gameObject.x p = 1414 / 10"
    and dy: "gameObject.y q - gameObject.y p = 1414 / 10"
    by (simp_all add: q_def)
  from upd dx dy sqrt_diagonal show "\<exists>q. Player_update g p 1000 = Ok q
        \<and> gameObject.x q - gameObject.x p = 200 * 0.707
        \<and> gameObject.y q - gameObject.y p = 200 * 0.707
        \<and> gameObject.x q = gameObject.x p + 141.4
        \<and> gameObject.y q = gameObject.y p + 141.4
        \<and> \<bar>sqrt ((gameObject.x q - gameObject.x p)\<^sup>2 + (gameObject.y q - gameObject.y p)\<^sup>2) - 200\<bar> < 0.1
        \<and> sqrt ((gameObject.x q - gameObject.x p)\<^sup>2 + (gameObject.y q - gameObject.y p)\<^sup>2)
              < 200 * sqrt 2"
    by (intro exI [of _ q]) (simp add: q_def)
qed


theorem Player_diagonal_step_witness:
  "gameObject.engine (owned_player 100 100) \<and> speed (owned_player 100 100) = 200
   \<and> pressed diagonal_engine ''ArrowRight'' \<and> pressed diagonal_engine ''KeyS''
   \<and> gameObject.x (owned_player 100 100) + 141.4
         \<le> gameEngine.width diagonal_engine - gameObject.width (owned_player 100 100)
   \<and> gameObject.y (owned_player 100 100) + 141.4
         \<le> gameEngine.height diagonal_engine - gameObject.height (owned_player 100 100)
   \<and> (\<exists>q. Player_update diagonal_engine (owned_player 100 100) 1000 = Ok q
          \<and> gameObject.x q = 241.4 \<and> gameObject.y q = 241.4)"
  using Player_diagonal_step [of "owned_player 100 100" diagonal_engine]
  by (simp add: owned_player_def Player_new_def diagonal_engine_def on_keydown_def emit_def
      GameEngine_new_def pressed_def) blast

text \<open>
  Claim C7. For a player that the engine owns, on a surface that has room for the player
  (\<open>w \<le> surfaceWidth\<close> and \<open>h \<le> surfaceHeight\<close>, so that the intervals of the claim
  are not empty), \<open>Player.update\<close> returns, for every start position, every key state and
  every \<open>deltaTime \<ge> 0\<close>, however large, with \<open>0 \<le> x \<le> surfaceWidth - w\<close> and
  \<open>0 \<le> y \<le> surfaceHeight - h\<close>; the size of the player is unchanged.
\<close>

theorem Player_update_clamped:
  "gameObject.engine p
   \<and> gameObject.width p \<le> gameEngine.width g
   \<and> gameObject.height p \<le> gameEngine.height g
   \<and> 0 \<le> dt
   \<longrightarrow>
     (\<exists>q. Player_update g p dt = Ok q
        \<and> 0 \<le> gameObject.x q \<and> gameObject.x q \<le> gameEngine.width g - gameObject.width q
        \<and> 0 \<le> gameObject.y q \<and> gameObject.y q \<le> gameEngine.height g - gameObject.height q
        \<and> gameObject.width q = gameObject.width p \<and> gameObject.height q = gameObject.height p)"
  unfolding Player_update_def Let_def by (simp add: min_def max_def)

theorem Player_update_clamped_witness:
  "gameObject.engine (owned_player 700 500)
   \<and> gameObject.width (owned_player 700 500) \<le> gameEngine.width diagonal_engine
   \<and> gameObject.height (owned_player 700 500) \<le> gameEngine.height diagonal_engine
   \<and> (0::real) \<le> 100000
   \<and> (\<exists>q. Player_update diagonal_engine (owned_player 700 500) 100000 = Ok q
          \<and> gameObject.x q = 768 \<and> gameObject.y q = 568)"
  using Player_update_clamped [of "owned_player 700 500" diagonal_engine 100000]
  by (simp add: Player_update_def Let_def owned_player_def Player_new_def diagonal_engine_def
      on_keydown_def emit_def GameEngine_new_def pressed_def)

subsection \<open>Collecting an item\<close>

lemma full_inventory_full:
  "items full_inventory = replicate 10 key_data" "maxItems full_inventory = 10"
proof -
  have "int (length (items Inventory_new) + length (replicate 10 key_data)) \<le> maxItems Inventory_new"
    by (simp add: Inventory_new_def items_updateUI maxItems_updateUI)
  from addItems_room [OF this]
  show "items full_inventory = replicate 10 key_data" "maxItems full_inventory = 10"
    by (simp_all add: full_inventory_def Inventory_new_def items_updateUI maxItems_updateUI)
qed

text \<open>
  Claim C1, as stated, at the item under the pointer of \<open>clicked_engine\<close>, whose inventory
  is full: \<open>addItem\<close> fails and the item is marked collected all the same.
\<close>

theorem Item_collect_full_counterexample:
  "\<not> collected gem_item
   \<and> \<not> snd (Inventory_addItem (inventory clicked_engine) (itemData gem_item))
   \<and> hovered (fst (Item_update clicked_engine gem_item 16))
   \<and> collected (fst (Item_update clicked_engine gem_item 16))"
  by (simp add: Item_update_def Item_collect_def Let_def gem_item_def Item_new_def
      clicked_engine_def on_click_def on_mousemove_def emit_def GameEngine_new_def
      full_inventory_full Inventory_addItem_def)

text \<open>
  Claim C1, amended. When an item that is not collected and that the engine owns is clicked
  while hovered and \<open>addItem\<close> fails, \<open>Item.update\<close> sets \<open>collected\<close> to true and
  leaves the engine (inventory, bus, dialogue) as it was; every later update of the item
  returns at once, in whatever state the engine then is.
\<close>

theorem Item_click_full_inventory:
  "\<not> collected this \<and> gameObject.engine this \<and> clicked (mouse g)
   \<and> gameObject.x this \<le> mouse.x (mouse g)
   \<and> mouse.x (mouse g) \<le> gameObject.x this + gameObject.width this
   \<and> gameObject.y this \<le> mouse.y (mouse g)
   \<and> mouse.y (mouse g) \<le> gameObject.y this + gameObject.height this
   \<and> \<not> snd (Inventory_addItem (inventory g) (itemData this))
   \<longrightarrow>
     Item_update g this dt = (this\<lparr> hovered := True, collected := True \<rparr>, g)
     \<and> collected (fst (Item_update g this dt))
     \<and> (\<forall>g' dt'. Item_update g' (fst (Item_update g this dt)) dt'
                     = (fst (Item_update g this dt), g'))"
proof
  assume a: "\<not> collected this \<and> gameObject.engine this \<and> clicked (mouse g)
   \<and> gameObject.x this \<le> mouse.x (mouse g)
   \<and> mouse.x (mouse g) \<le> gameObject.x this + gameObject.width this
   \<and> gameObject.y this \<le> mouse.y (mouse g)
   \<and> mouse.y (mouse g) \<le> gameObject.y this + gameObject.height this
   \<and> \<not> snd (Inventory_addItem (inventory g) (itemData this))"
  then have full: "Inventory_addItem (inventory g) (itemData this) = (inventory g, False)"
    by (simp add: Inventory_addItem_def split: if_splits)
  from a have step: "Item_update g this dt = (this\<lparr> hovered := True, collected := True \<rparr>, g)"
    by (simp add: Item_update_def Item_collect_def Let_def full)
  have inert: "Item_update g' (this\<lparr> hovered := True, collected := True \<rparr>) dt'
                 = (this\<lparr> hovered := True, collected := True \<rparr>, g')" for g' dt'
    by (simp add: Item_update_def)
  from step inert show "Item_update g this dt = (this\<lparr> hovered := True, collected := True \<rparr>, g)
     \<and> collected (fst (Item_update g this dt))
     \<and> (\<forall>g' dt'. Item_update g' (fst (Item_update g this dt)) dt'
                     = (fst (Item_update g this dt), g'))"
    by simp
qed

theorem Item_click_full_inventory_witness:
  "\<not> collected gem_item \<and> gameObject.engine gem_item \<and> clicked (mouse clicked_engine)
   \<and> gameObject.x gem_item \<le> mouse.x (mouse clicked_engine)
   \<and> mouse.x (mouse clicked_engine) \<le> gameObject.x gem_item + gameObject.width gem_item
   \<and> gameObject.y gem_item \<le> mouse.y (mouse clicked_engine)
   \<and> mouse.y (mouse clicked_engine) \<le> gameObject.y gem_item + gameObject.height gem_item
   \<and> \<not> snd (Inventory_addItem (inventory clicked_engine) (itemData gem_item))
   \<and> Item_update clicked_engine gem_item 16
         = (gem_item\<lparr> hovered := True, collected := True \<rparr>, clicked_engine)
   \<and> Item_update ((GameEngine_new 800 600)\<lparr> mouse := mouse clicked_engine \<rparr>)
         (fst (Item_update clicked_engine gem_item 16)) 16
         = (fst (Item_update clicked_engine gem_item 16),
            (GameEngine_new 800 600)\<lparr> mouse := mouse clicked_engine \<rparr>)"
proof -
  have hyps: "\<not> collected gem_item \<and> gameObject.engine gem_item \<and> clicked (mouse clicked_engine)
   \<and> gameObject.x gem_item \<le> mouse.x (mouse clicked_engine)
   \<and> mouse.x (mouse clicked_engine) \<le> gameObject.x gem_item + gameObject.width gem_item
   \<and> gameObject.y gem_item \<le> mouse.y (mouse clicked_engine)
   \<and> mouse.y (mouse clicked_engine) \<le> gameObject.y gem_item + gameObject.height gem_item
   \<and> \<not> snd (Inventory_addItem (inventory clicked_engine) (itemData gem_item))"
    by (simp add: gem_item_def Item_new_def
      clicked_engine_def on_click_def on_mousemove_def emit_def GameEngine_new_def
      full_inventory_full Inventory_addItem_def Let_def)
  with Item_click_full_inventory [of gem_item clicked_engine 16] show ?thesis
    by blast
qed

subsection \<open>The record of calls and what an update leaves alone\<close>

lemma update_deltas_append: "update_deltas (xs @ ys) = update_deltas xs @ update_deltas ys"
  by (induction xs rule: update_deltas.induct) simp_all

lemma object_updates_append: "object_updates (xs @ ys) = object_updates xs @ object_updates ys"
  by (induction xs rule: object_updates.induct) simp_all

lemma init_count_append: "init_count r (xs @ ys) = init_count r xs + init_count r ys"
  by (induction r xs rule: init_count.induct) simp_all

lemma callbacks_silent:
  "update_deltas (map (\<lambda>(cb, d). Callback_call ev cb d) zs) = []"
  "object_updates (map (\<lambda>(cb, d). Callback_call ev cb d) zs) = []"
  by (induction zs) auto

lemma emit_frame:
  "sceneStore (emit g ev d) = sceneStore g"
  "gameEngine.gameObjects (emit g ev d) = gameEngine.gameObjects g"
  "currentScene (emit g ev d) = currentScene g"
  "isRunning (emit g ev d) = isRunning g"
  "lastTime (emit g ev d) = lastTime g"
  "entities (emit g ev d) = entities g"
  "update_deltas (calls (emit g ev d)) = update_deltas (calls g)"
  "object_updates (calls (emit g ev d)) = object_updates (calls g)"
  by (simp_all add: emit_def update_deltas_append object_updates_append callbacks_silent)

lemma Item_collect_frame:
  "sceneStore (snd (Item_collect g this)) = sceneStore g"
  "gameEngine.gameObjects (snd (Item_collect g this)) = gameEngine.gameObjects g"
  "currentScene (snd (Item_collect g this)) = currentScene g"
  "isRunning (snd (Item_collect g this)) = isRunning g"
  "lastTime (snd (Item_collect g this)) = lastTime g"
  "entities (snd (Item_collect g this)) = entities g"
  "update_deltas (calls (snd (Item_collect g this))) = update_deltas (calls g)"
  "object_updates (calls (snd (Item_collect g this))) = object_updates (calls g)"
  by (simp_all add: Item_collect_def Let_def showDialogue_def emit_frame
      split: prod.splits option.splits)

lemma Item_update_frame:
  "sceneStore (snd (Item_update g this dt)) = sceneStore g"
  "gameEngine.gameObjects (snd (Item_update g this dt)) = gameEngine.gameObjects g"
  "currentScene (snd (Item_update g this dt)) = currentScene g"
  "isRunning (snd (Item_update g this dt)) = isRunning g"
  "lastTime (snd (Item_update g this dt)) = lastTime g"
  "entities (snd (Item_update g this dt)) = entities g"
  "update_deltas (calls (snd (Item_update g this dt))) = update_deltas (calls g)"
  "object_updates (calls (snd (Item_update g this dt))) = object_updates (calls g)"
  by (simp_all add: Item_update_def Let_def Item_collect_frame)

lemma GameObject_update_cases:
  "entities g ref = None \<Longrightarrow> GameObject_update g ref dt = Ok g"
  "entities g ref = Some (GameObject obj) \<Longrightarrow> GameObject_update g ref dt = Ok g"
  "entities g ref = Some (Player p) \<Longrightarrow>
     state_of (GameObject_update g ref dt) =
       g\<lparr> entities := (entities g)(ref \<mapsto> Player (state_of (Player_update g p dt))) \<rparr>"
  "entities g ref = Some (Item it) \<Longrightarrow>
     GameObject_update g ref dt =
       Ok ((snd (Item_update g it dt))
             \<lparr> entities := (entities (snd (Item_update g it dt)))
                               (ref \<mapsto> Item (fst (Item_update g it dt))) \<rparr>)"
  by (simp_all add: GameObject_update_def split: prod.splits result.splits)

lemma GameObject_update_frame:
  "sceneStore (state_of (GameObject_update g ref dt)) = sceneStore g"
  "gameEngine.gameObjects (state_of (GameObject_update g ref dt)) = gameEngine.gameObjects g"
  "currentScene (state_of (GameObject_update g ref dt)) = currentScene g"
  "isRunning (state_of (GameObject_update g ref dt)) = isRunning g"
  "lastTime (state_of (GameObject_update g ref dt)) = lastTime g"
  "update_deltas (calls (state_of (GameObject_update g ref dt))) = update_deltas (calls g)"
  "object_updates (calls (state_of (GameObject_update g ref dt))) = object_updates (calls g)"
proof -
  consider "entities g ref = None"
    | obj where "entities g ref = Some (GameObject obj)"
    | p where "entities g ref = Some (Player p)"
    | it where "entities g ref = Some (Item it)"
  proof (cases "entities g ref")
    case None
    then show ?thesis using that by simp
  next
    case (Some a)
    then show ?thesis using that by (cases a) simp_all
  qed
  then have "sceneStore (state_of (GameObject_update g ref dt)) = sceneStore g
    \<and> gameEngine.gameObjects (state_of (GameObject_update g ref dt)) = gameEngine.gameObjects g
    \<and> currentScene (state_of (GameObject_update g ref dt)) = currentScene g
    \<and> isRunning (state_of (GameObject_update g ref dt)) = isRunning g
    \<and> lastTime (state_of (GameObject_update g ref dt)) = lastTime g
    \<and> update_deltas (calls (state_of (GameObject_update g ref dt))) = update_deltas (calls g)
    \<and> object_updates (calls (state_of (GameObject_update g ref dt))) = object_updates (calls g)"
    by cases (simp_all add: GameObject_update_cases Item_update_frame)
  then show
    "sceneStore (state_of (GameObject_update g ref dt)) = sceneStore g"
    "gameEngine.gameObjects (state_of (GameObject_update g ref dt)) = gameEngine.gameObjects g"
    "currentScene (state_of (GameObject_update g ref dt)) = currentScene g"
    "isRunning (state_of (GameObject_update g ref dt)) = isRunning g"
    "lastTime (state_of (GameObject_update g ref dt)) = lastTime g"
    "update_deltas (calls (state_of (GameObject_update g ref dt))) = update_deltas (calls g)"
    "object_updates (calls (state_of (GameObject_update g ref dt))) = object_updates (calls g)"
    by simp_all
qed

lemma forEach_update_Cons:
  "state_of (forEach_update g (ref # rest) dt) =
     (case GameObject_update (g\<lparr> calls := calls g @ [Object_update_call ref dt] \<rparr>) ref dt of
        Ok g1 \<Rightarrow> state_of (forEach_update g1 rest dt)
      | Throws e g1 \<Rightarrow> g1)"
  by (simp split: result.splits)

lemma forEach_update_frame:
  "sceneStore (state_of (forEach_update g refs dt)) = sceneStore g
   \<and> gameEngine.gameObjects (state_of (forEach_update g refs dt)) = gameEngine.gameObjects g
   \<and> currentScene (state_of (forEach_update g refs dt)) = currentScene g
   \<and> isRunning (state_of (forEach_update g refs dt)) = isRunning g
   \<and> lastTime (state_of (forEach_update g refs dt)) = lastTime g
   \<and> update_deltas (calls (state_of (forEach_update g refs dt))) = update_deltas (calls g)"
proof (induction refs arbitrary: g)
  case Nil
  show ?case by simp
next
  case (Cons ref rest)
  let ?g0 = "g\<lparr> calls := calls g @ [Object_update_call ref dt] \<rparr>"
  note fr = GameObject_update_frame [of ?g0 ref dt]
  show ?case
  proof (cases "GameObject_update ?g0 ref dt")
    case (Ok g1)
    with fr Cons.IH [of g1] show ?thesis
      by (simp add: forEach_update_Cons update_deltas_append)
  next
    case (Throws e g1)
    with fr show ?thesis
      by (simp add: forEach_update_Cons update_deltas_append)
  qed
qed

lemma forEach_update_calls:
  "forEach_update g refs dt = Ok g' \<Longrightarrow>
     object_updates (calls g') = object_updates (calls g) @ map (\<lambda>r. (r, dt)) refs"
proof (induction refs arbitrary: g)
  case Nil
  then show ?case by simp
next
  case (Cons ref rest)
  let ?g0 = "g\<lparr> calls := calls g @ [Object_update_call ref dt] \<rparr>"
  note fr = GameObject_update_frame(7) [of ?g0 ref dt]
  show ?case
  proof (cases "GameObject_update ?g0 ref dt")
    case (Ok g1)
    with Cons.prems have "forEach_update g1 rest dt = Ok g'" by simp
    from Cons.IH [OF this] fr Ok show ?thesis
      by (simp add: object_updates_append)
  next
    case (Throws e g1)
    with Cons.prems show ?thesis by simp
  qed
qed


lemma Scene_update_frame:
  "sceneStore (state_of (Scene_update g sref dt)) = sceneStore g
   \<and> gameEngine.gameObjects (state_of (Scene_update g sref dt)) = gameEngine.gameObjects g
   \<and> currentScene (state_of (Scene_update g sref dt)) = currentScene g
   \<and> isRunning (state_of (Scene_update g sref dt)) = isRunning g
   \<and> lastTime (state_of (Scene_update g sref dt)) = lastTime g
   \<and> update_deltas (calls (state_of (Scene_update g sref dt))) = update_deltas (calls g)"
  using forEach_update_frame [of g _ dt]
  by (simp add: Scene_update_def split: option.splits)

lemma GameEngine_update_frame:
  "update_deltas (calls (state_of (GameEngine_update g dt))) = update_deltas (calls g) @ [dt]
   \<and> isRunning (state_of (GameEngine_update g dt)) = isRunning g
   \<and> lastTime (state_of (GameEngine_update g dt)) = lastTime g"
proof -
  let ?g0 = "g\<lparr> calls := calls g @ [Update_call dt] \<rparr>"
  let ?r1 = "case currentScene ?g0 of None \<Rightarrow> Ok ?g0 | Some sref \<Rightarrow> Scene_update ?g0 sref dt"
  have r1: "update_deltas (calls (state_of ?r1)) = update_deltas (calls g) @ [dt]
     \<and> isRunning (state_of ?r1) = isRunning g \<and> lastTime (state_of ?r1) = lastTime g"
    using Scene_update_frame [of ?g0 _ dt]
    by (simp add: update_deltas_append split: option.splits)
  show ?thesis
  proof (cases ?r1)
    case (Throws e g1)
    then have "GameEngine_update g dt = Throws e g1"
      by (simp add: GameEngine_update_def Let_def)
    with r1 Throws show ?thesis by simp
  next
    case (Ok g1)
    note fr = forEach_update_frame [of g1 "gameEngine.gameObjects g1" dt]
    show ?thesis
    proof (cases "forEach_update g1 (gameEngine.gameObjects g1) dt")
      case (Throws e g2)
      with Ok have "GameEngine_update g dt = Throws e g2"
        by (simp add: GameEngine_update_def Let_def)
      with r1 Ok fr Throws show ?thesis by simp
    next
      case inner: (Ok g2)
      with Ok have "GameEngine_update g dt = Ok (g2\<lparr> mouse := (mouse g2)\<lparr> clicked := False \<rparr> \<rparr>)"
        by (simp add: GameEngine_update_def Let_def)
      with r1 Ok fr inner show ?thesis by simp
    qed
  qed
qed

lemma GameEngine_update_calls:
  assumes ok: "GameEngine_update g dt = Ok g'"
    and cur: "currentScene g = Some sref"
    and sc: "sceneStore g sref = Some sc"
  shows "object_updates (calls g') =
           object_updates (calls g) @ map (\<lambda>r. (r, dt)) (scene.gameObjects sc)
             @ map (\<lambda>r. (r, dt)) (gameEngine.gameObjects g)"
proof -
  let ?g0 = "g\<lparr> calls := calls g @ [Update_call dt] \<rparr>"
  from cur sc have su: "Scene_update ?g0 sref dt = forEach_update ?g0 (scene.gameObjects sc) dt"
    by (simp add: Scene_update_def)
  from ok cur su obtain g1 where g1: "forEach_update ?g0 (scene.gameObjects sc) dt = Ok g1"
    by (cases "forEach_update ?g0 (scene.gameObjects sc) dt")
       (simp_all add: GameEngine_update_def Let_def)
  with ok cur su obtain g2 where g2: "forEach_update g1 (gameEngine.gameObjects g1) dt = Ok g2"
    and g': "g' = g2\<lparr> mouse := (mouse g2)\<lparr> clicked := False \<rparr> \<rparr>"
    by (cases "forEach_update g1 (gameEngine.gameObjects g1) dt")
       (simp_all add: GameEngine_update_def Let_def)
  from forEach_update_frame [of ?g0 "scene.gameObjects sc" dt] g1
  have same: "gameEngine.gameObjects g1 = gameEngine.gameObjects g" by simp
  from forEach_update_calls [OF g1]
  have c1: "object_updates (calls g1) =
      object_updates (calls g) @ map (\<lambda>r. (r, dt)) (scene.gameObjects sc)"
    by (simp add: object_updates_append)
  from forEach_update_calls [OF g2] c1 same g' show ?thesis by simp
qed

lemma count_list_tagged: "count_list (map (\<lambda>r. (r, dt)) refs) (ref, dt) = count_list refs ref"
  by (induction refs) simp_all

lemma Scene_addGameObject_lists:
  assumes "sceneStore g sref = Some sc" and "scene.engine sc"
  shows "sceneStore (Scene_addGameObject g sref ref) sref
           = Some (sc\<lparr> scene.gameObjects := scene.gameObjects sc @ [ref] \<rparr>)"
    and "gameEngine.gameObjects (Scene_addGameObject g sref ref) = gameEngine.gameObjects g @ [ref]"
    and "currentScene (Scene_addGameObject g sref ref) = currentScene g"
    and "calls (Scene_addGameObject g sref ref) = calls g"
  using assms
  by (simp_all add: Scene_addGameObject_def GameEngine_addGameObject_def Let_def)

subsection \<open>Scene activation\<close>

text \<open>
  Claim C3, as stated, at the engine with the scene \<open>game\<close>: the second \<open>setScene\<close> of the
  scene that is already current calls its \<open>init\<close> a second time.
\<close>

theorem setScene_reinit_counterexample:
  "scenes game_engine ''game'' = Some 0
   \<and> currentScene (GameEngine_setScene game_engine ''game'') = Some 0
   \<and> init_count 0 (calls (GameEngine_setScene game_engine ''game'')) = 1
   \<and> init_count 0 (calls (GameEngine_setScene (GameEngine_setScene game_engine ''game'') ''game'')) = 2"
  by (simp add: GameEngine_setScene_def Scene_init_def game_engine_def GameEngine_addScene_def
      GameEngine_new_def)

text \<open>
  Claim C3, amended. For a registered name, every call of \<open>setScene\<close> makes the scene
  current and calls its \<open>init\<close> once, also when the scene is current already; two calls
  in a row call \<open>init\<close> twice. For a name that is not registered \<open>setScene\<close> changes
  nothing.
\<close>

theorem setScene_inits_on_every_call:
  "(scenes g nm = Some sref \<longrightarrow>
      currentScene (GameEngine_setScene g nm) = Some sref
      \<and> scenes (GameEngine_setScene g nm) = scenes g
      \<and> calls (GameEngine_setScene g nm) = calls g @ [Init_call sref]
      \<and> init_count sref (calls (GameEngine_setScene g nm)) = init_count sref (calls g) + 1
      \<and> init_count sref (calls (GameEngine_setScene (GameEngine_setScene g nm) nm))
            = init_count sref (calls g) + 2)
   \<and> (scenes g nm = None \<longrightarrow> GameEngine_setScene g nm = g)"
  by (simp add: GameEngine_setScene_def Scene_init_def init_count_append)

theorem setScene_inits_on_every_call_witness:
  "scenes game_engine ''game'' = Some 0
   \<and> currentScene (GameEngine_setScene game_engine ''game'') = Some 0
   \<and> calls (GameEngine_setScene game_engine ''game'') = calls game_engine @ [Init_call 0]
   \<and> init_count 0 (calls (GameEngine_setScene (GameEngine_setScene game_engine ''game'') ''game''))
         = init_count 0 (calls game_engine) + 2
   \<and> scenes game_engine ''menu'' = None
   \<and> GameEngine_setScene game_engine ''menu'' = game_engine"
  using setScene_inits_on_every_call [of game_engine "''game''" 0]
    setScene_inits_on_every_call [of game_engine "''menu''" 0]
  by (simp add: game_engine_def GameEngine_addScene_def GameEngine_new_def)

subsection \<open>The frame scheduler\<close>

lemma gameLoop_running:
  assumes "isRunning g"
  shows "update_deltas (calls (state_of (GameEngine_gameLoop g t)))
           = update_deltas (calls g) @ [t - lastTime g]"
    and "lastTime (state_of (GameEngine_gameLoop g t)) = t"
    and "isRunning (state_of (GameEngine_gameLoop g t))"
proof -
  let ?g1 = "g\<lparr> lastTime := t \<rparr>"
  note fr = GameEngine_update_frame [of ?g1 "t - lastTime g"]
  have "update_deltas (calls (state_of (GameEngine_gameLoop g t)))
           = update_deltas (calls g) @ [t - lastTime g]
    \<and> lastTime (state_of (GameEngine_gameLoop g t)) = t
    \<and> isRunning (state_of (GameEngine_gameLoop g t))"
  proof (cases "GameEngine_update ?g1 (t - lastTime g)")
    case (Ok g2)
    with fr assms show ?thesis
      by (simp add: GameEngine_gameLoop_def Let_def GameEngine_render_def
          requestAnimationFrame_def update_deltas_append)
  next
    case (Throws e g2)
    with fr assms show ?thesis
      by (simp add: GameEngine_gameLoop_def Let_def)
  qed
  then show "update_deltas (calls (state_of (GameEngine_gameLoop g t)))
           = update_deltas (calls g) @ [t - lastTime g]"
    and "lastTime (state_of (GameEngine_gameLoop g t)) = t"
    and "isRunning (state_of (GameEngine_gameLoop g t))"
    by simp_all
qed

text \<open>
  Claim C2, as stated, at an engine started at time 100 whose next tick comes with time 50:
  \<open>update\<close> is called with \<open>-50\<close>.
\<close>

theorem gameLoop_negative_delta_counterexample:
  "isRunning (state_of (GameEngine_start game_engine 100))
   \<and> lastTime (state_of (GameEngine_start game_engine 100)) = 100
   \<and> update_deltas (calls (state_of (GameEngine_start game_engine 100))) = [0]
   \<and> update_deltas
         (calls (state_of (GameEngine_gameLoop (state_of (GameEngine_start game_engine 100)) 50)))
       = [0, - 50]"
  by (simp add: GameEngine_start_def GameEngine_gameLoop_def GameEngine_update_def Let_def
      GameEngine_render_def requestAnimationFrame_def game_engine_def GameEngine_addScene_def
      GameEngine_new_def)

text \<open>
  Claim C2, amended. A tick of a running engine calls \<open>update\<close> with
  \<open>currentTime - lastTime\<close> as it is, which is negative exactly when the clock went back,
  and stores \<open>currentTime\<close> in \<open>lastTime\<close>; when \<open>update\<close> returns, \<open>render\<close> and the
  request for the next frame follow, and the next tick passes the difference of the two
  times. A tick of a stopped engine does nothing.
\<close>

theorem gameLoop_passes_raw_delta:
  "(isRunning g \<longrightarrow>
      update_deltas (calls (state_of (GameEngine_gameLoop g t)))
        = update_deltas (calls g) @ [t - lastTime g]
      \<and> lastTime (state_of (GameEngine_gameLoop g t)) = t
      \<and> ((t - lastTime g < 0) = (t < lastTime g))
      \<and> (\<forall>g1. GameEngine_gameLoop g t = Ok g1 \<longrightarrow>
            (\<exists>cs. calls g1 = cs @ [Render_call, RequestAnimationFrame_call])
            \<and> update_deltas (calls (state_of (GameEngine_gameLoop g1 t2)))
                = update_deltas (calls g) @ [t - lastTime g, t2 - t]))
   \<and> (\<not> isRunning g \<longrightarrow> GameEngine_gameLoop g t = Ok g)"
proof -
  have idle: "GameEngine_gameLoop g t = Ok g" if "\<not> isRunning g"
    using that by (simp add: GameEngine_gameLoop_def)
  have two: "(\<exists>cs. calls g1 = cs @ [Render_call, RequestAnimationFrame_call])
      \<and> update_deltas (calls (state_of (GameEngine_gameLoop g1 t2)))
          = update_deltas (calls g) @ [t - lastTime g, t2 - t]"
    if run: "isRunning g" and ok: "GameEngine_gameLoop g t = Ok g1" for g1
  proof -
    from gameLoop_running [OF run, of t] ok
    have d1: "update_deltas (calls g1) = update_deltas (calls g) @ [t - lastTime g]"
      and l1: "lastTime g1 = t" and r1: "isRunning g1"
      by simp_all
    from run ok obtain g2 where "g1 = requestAnimationFrame (GameEngine_render g2)"
      by (cases "GameEngine_update (g\<lparr> lastTime := t \<rparr>) (t - lastTime g)")
         (auto simp: GameEngine_gameLoop_def Let_def)
    then have tail: "\<exists>cs. calls g1 = cs @ [Render_call, RequestAnimationFrame_call]"
      by (simp add: requestAnimationFrame_def GameEngine_render_def)
    from gameLoop_running(1) [OF r1, of t2] d1 l1 tail show ?thesis by simp
  qed
  from idle two gameLoop_running show ?thesis by simp
qed

theorem gameLoop_passes_raw_delta_witness:
  "isRunning (state_of (GameEngine_start game_engine 100))
   \<and> GameEngine_gameLoop (state_of (GameEngine_start game_engine 100)) 116
       = Ok (state_of (GameEngine_gameLoop (state_of (GameEngine_start game_engine 100)) 116))
   \<and> update_deltas
        (calls (state_of (GameEngine_gameLoop
           (state_of (GameEngine_gameLoop (state_of (GameEngine_start game_engine 100)) 116)) 90)))
       = [0, 16, - 26]
   \<and> \<not> isRunning game_engine
   \<and> GameEngine_gameLoop game_engine 116 = Ok game_engine"
proof -
  let ?g = "state_of (GameEngine_start game_engine 100)"
  have run: "isRunning ?g" and t0: "lastTime ?g = 100" and c0: "update_deltas (calls ?g) = [0]"
    and idle: "\<not> isRunning game_engine"
    by (simp_all add: GameEngine_start_def GameEngine_gameLoop_def GameEngine_update_def Let_def
      GameEngine_render_def requestAnimationFrame_def game_engine_def GameEngine_addScene_def
      GameEngine_new_def)
  have ok: "GameEngine_gameLoop ?g 116 = Ok (state_of (GameEngine_gameLoop ?g 116))"
    by (simp add: GameEngine_start_def GameEngine_gameLoop_def GameEngine_update_def Let_def
      GameEngine_render_def requestAnimationFrame_def game_engine_def GameEngine_addScene_def
      GameEngine_new_def)
  from gameLoop_passes_raw_delta [of ?g 116 90] run ok t0 c0
    gameLoop_passes_raw_delta [of game_engine 116] idle
  show ?thesis by simp
qed

subsection \<open>Entities added through a scene\<close>

text \<open>
  Claim C10. \<open>Scene.addGameObject\<close> on a scene that has its engine appends the entity to
  the list of the scene and to the list of the engine. When that scene is current, one
  \<open>GameEngine.update\<close> that returns calls \<open>update\<close> of the entities of the scene, in
  order, and then of the entities of the engine, in order; the added entity is called
  twice, and more often only if it was in one of the lists before.
\<close>

theorem Scene_addGameObject_double_update:
  "(sceneStore g sref = Some sc \<and> scene.engine sc \<longrightarrow>
      sceneStore (Scene_addGameObject g sref ref) sref
        = Some (sc\<lparr> scene.gameObjects := scene.gameObjects sc @ [ref] \<rparr>)
      \<and> gameEngine.gameObjects (Scene_addGameObject g sref ref) = gameEngine.gameObjects g @ [ref]
      \<and> (\<forall>g'. currentScene g = Some sref
               \<and> GameEngine_update (Scene_addGameObject g sref ref) dt = Ok g' \<longrightarrow>
            object_updates (calls g') =
              object_updates (calls g)
                @ map (\<lambda>r. (r, dt)) (scene.gameObjects sc @ [ref])
                @ map (\<lambda>r. (r, dt)) (gameEngine.gameObjects g @ [ref])
            \<and> count_list (object_updates (calls g')) (ref, dt) =
                count_list (object_updates (calls g)) (ref, dt)
                  + count_list (scene.gameObjects sc) ref
                  + count_list (gameEngine.gameObjects g) ref + 2))
   \<and> (currentScene h = Some sref \<and> sceneStore h sref = Some sc
        \<and> GameEngine_update h dt = Ok h' \<longrightarrow>
          object_updates (calls h') =
            object_updates (calls h)
              @ map (\<lambda>r. (r, dt)) (scene.gameObjects sc)
              @ map (\<lambda>r. (r, dt)) (gameEngine.gameObjects h))"
proof -
  have general: "object_updates (calls h') =
            object_updates (calls h)
              @ map (\<lambda>r. (r, dt)) (scene.gameObjects sc)
              @ map (\<lambda>r. (r, dt)) (gameEngine.gameObjects h)"
    if "currentScene h = Some sref" "sceneStore h sref = Some sc" "GameEngine_update h dt = Ok h'"
    using that GameEngine_update_calls by blast
  have added: "object_updates (calls g') =
              object_updates (calls g)
                @ map (\<lambda>r. (r, dt)) (scene.gameObjects sc @ [ref])
                @ map (\<lambda>r. (r, dt)) (gameEngine.gameObjects g @ [ref])
            \<and> count_list (object_updates (calls g')) (ref, dt) =
                count_list (object_updates (calls g)) (ref, dt)
                  + count_list (scene.gameObjects sc) ref
                  + count_list (gameEngine.gameObjects g) ref + 2"
    if st: "sceneStore g sref = Some sc" and en: "scene.engine sc"
      and cur: "currentScene g = Some sref"
      and ok: "GameEngine_update (Scene_addGameObject g sref ref) dt = Ok g'" for g'
  proof -
    note l = Scene_addGameObject_lists [OF st en, of ref]
    from cur l(3) have cur': "currentScene (Scene_addGameObject g sref ref) = Some sref" by simp
    from GameEngine_update_calls [OF ok cur' l(1)] l(2) l(4)
    have seq: "object_updates (calls g') =
              object_updates (calls g)
                @ map (\<lambda>r. (r, dt)) (scene.gameObjects sc @ [ref])
                @ map (\<lambda>r. (r, dt)) (gameEngine.gameObjects g @ [ref])"
      by simp
    have "count_list (map (\<lambda>r. (r, dt)) (scene.gameObjects sc @ [ref])) (ref, dt)
            = count_list (scene.gameObjects sc) ref + 1"
      and "count_list (map (\<lambda>r. (r, dt)) (gameEngine.gameObjects g @ [ref])) (ref, dt)
            = count_list (gameEngine.gameObjects g) ref + 1"
      by (simp_all only: count_list_tagged) simp_all
    with seq show ?thesis by (simp only: count_list_append) simp
  qed
  from general added Scene_addGameObject_lists(1,2) [of g sref sc ref] show ?thesis
    by blast
qed



lemma current_engine_step:
  "GameEngine_update (Scene_addGameObject current_engine 0 1) 1000 =
     Ok (current_engine
           \<lparr> gameEngine.gameObjects := [1],
             entities := [1 \<mapsto> Player ((owned_player 500 100)\<lparr> direction_x := 1 \<rparr>)],
             sceneStore := [0 \<mapsto> Scene_new\<lparr> scene.engine := True, scene.gameObjects := [1] \<rparr>],
             calls := [Init_call 0, Update_call 1000,
                       Object_update_call 1 1000, Object_update_call 1 1000] \<rparr>)"
  by (simp add: GameEngine_update_def Scene_update_def GameObject_update_def Player_update_def
      Scene_addGameObject_def GameEngine_addGameObject_def current_engine_def on_keydown_def
      emit_def EventSystem_emit_def EventSystem_new_def GameEngine_setScene_def Scene_init_def
      game_engine_def GameEngine_addScene_def GameEngine_new_def Scene_new_def Player_new_def
      owned_player_def pressed_def Let_def)


theorem Scene_addGameObject_double_update_witness:
  "sceneStore current_engine 0 = Some (Scene_new\<lparr> scene.engine := True \<rparr>)
   \<and> scene.engine (Scene_new\<lparr> scene.engine := True \<rparr>)
   \<and> currentScene current_engine = Some 0
   \<and> scene.gameObjects (Scene_new\<lparr> scene.engine := True \<rparr>) = []
   \<and> gameEngine.gameObjects current_engine = []
   \<and> gameEngine.gameObjects (Scene_addGameObject current_engine 0 1) = [1]
   \<and> GameEngine_update (Scene_addGameObject current_engine 0 1) 1000
        = Ok (state_of (GameEngine_update (Scene_addGameObject current_engine 0 1) 1000))
   \<and> object_updates
        (calls (state_of (GameEngine_update (Scene_addGameObject current_engine 0 1) 1000)))
        = [(1, 1000), (1, 1000)]
   \<and> count_list
        (object_updates
           (calls (state_of (GameEngine_update (Scene_addGameObject current_engine 0 1) 1000))))
        (1, 1000) = 2
   \<and> entities (state_of (GameEngine_update (Scene_addGameObject current_engine 0 1) 1000)) 1
        = Some (Player ((owned_player 500 100)\<lparr> direction_x := 1 \<rparr>))"
proof -
  let ?sc = "Scene_new\<lparr> scene.engine := True \<rparr>"
  let ?g' = "state_of (GameEngine_update (Scene_addGameObject current_engine 0 1) 1000)"
  have st: "sceneStore current_engine 0 = Some ?sc" and en: "scene.engine ?sc"
    and cur: "currentScene current_engine = Some 0"
    and nil: "scene.gameObjects ?sc = []" "gameEngine.gameObjects current_engine = []"
    and c0: "calls current_engine = [Init_call 0]"
    by (simp_all add: current_engine_def on_keydown_def emit_def EventSystem_emit_def
        EventSystem_new_def GameEngine_setScene_def Scene_init_def game_engine_def
        GameEngine_addScene_def GameEngine_new_def Scene_new_def)
  have ok: "GameEngine_update (Scene_addGameObject current_engine 0 1) 1000 = Ok ?g'"
    unfolding current_engine_step by simp
  have pl: "entities ?g' 1 = Some (Player ((owned_player 500 100)\<lparr> direction_x := 1 \<rparr>))"
    unfolding current_engine_step by simp
  from Scene_addGameObject_double_update [of current_engine 0 ?sc 1 1000] st en cur ok
  have "gameEngine.gameObjects (Scene_addGameObject current_engine 0 1)
          = gameEngine.gameObjects current_engine @ [1]"
    and "object_updates (calls ?g') =
              object_updates (calls current_engine)
                @ map (\<lambda>r. (r, 1000)) (scene.gameObjects ?sc @ [1])
                @ map (\<lambda>r. (r, 1000)) (gameEngine.gameObjects current_engine @ [1])"
    and "count_list (object_updates (calls ?g')) (1, 1000) =
                count_list (object_updates (calls current_engine)) (1, 1000)
                  + count_list (scene.gameObjects ?sc) 1
                  + count_list (gameEngine.gameObjects current_engine) 1 + 2"
    by blast+
  with st en cur nil c0 ok pl show ?thesis by simp
qed

end
